theory Spec2Isabelle
  imports Main
begin

section \<open>The semantic value form directive of the GRR admin UI\<close>

text \<open>
  A shallow embedding of
  \<^verbatim>\<open>gui/static/angular-components/forms/semantic-value-form-directive.js\<close>.
  The directive watches the \<^verbatim>\<open>type\<close> property of its bound value, finds the form
  directive registered for that type, compiles a template for it, keeps compiled
  templates in a module-wide cache and appends an instance of the template to its own
  element.

  JavaScript strings are modelled as \<^typ>\<open>string\<close>, read as sequences of code units
  below 256 (the Latin-1 range); type names and directive names of the UI are ASCII
  identifiers.
\<close>

subsection \<open>JavaScript values and strings\<close>

text \<open>
  The values a \<^verbatim>\<open>type\<close> property or a \<^verbatim>\<open>directive_name\<close> can hold.
  Numbers and objects are left out.
\<close>

datatype jsval = JUndefined | JNull | JBool bool | JStr string

datatype js_error = TypeError

text \<open>The string a value becomes when it is used as a property key: \<^verbatim>\<open>obj[v]\<close>.\<close>

fun to_property_key :: "jsval \<Rightarrow> string" where
  "to_property_key JUndefined = ''undefined''"
| "to_property_key JNull = ''null''"
| "to_property_key (JBool b) = (if b then ''true'' else ''false'')"
| "to_property_key (JStr s) = s"

text \<open>The character classes \<^verbatim>\<open>[a-z\d]\<close> and \<^verbatim>\<open>[A-Z]\<close> of the regular expression.\<close>

definition is_lower_or_digit :: "char \<Rightarrow> bool" where
  "is_lower_or_digit c =
     ((97 \<le> (of_char c :: nat) \<and> (of_char c :: nat) \<le> 122) \<or>
      (48 \<le> (of_char c :: nat) \<and> (of_char c :: nat) \<le> 57))"

definition is_upper :: "char \<Rightarrow> bool" where
  "is_upper c = (65 \<le> (of_char c :: nat) \<and> (of_char c :: nat) \<le> 90)"

text \<open>
  \<^verbatim>\<open>String.prototype.toLowerCase\<close> on code units below 256: the letters A to Z and
  the Latin-1 capitals U+00C0 to U+00DE (without the multiplication sign U+00D7) move up
  by 32, everything else stays.
\<close>

definition has_lower_case :: "char \<Rightarrow> bool" where
  "has_lower_case c =
     ((65 \<le> (of_char c :: nat) \<and> (of_char c :: nat) \<le> 90) \<or>
      (192 \<le> (of_char c :: nat) \<and> (of_char c :: nat) \<le> 222 \<and> (of_char c :: nat) \<noteq> 215))"

definition lower_char :: "char \<Rightarrow> char" where
  "lower_char c = (if has_lower_case c then char_of ((of_char c :: nat) + 32) else c)"

definition toLowerCase :: "string \<Rightarrow> string" where
  "toLowerCase s = map lower_char s"

text \<open>
  \<^verbatim>\<open>s.replace(/([a-z\d])([A-Z])/g, '$1-$2')\<close>: the string is scanned from the left;
  where the two characters at the current position match, they are replaced by the
  first, a dash and the second, and the scan goes on behind the match; elsewhere one
  character is copied.
\<close>

fun replace_camel :: "string \<Rightarrow> string" where
  "replace_camel (a # b # cs) =
     (if is_lower_or_digit a \<and> is_upper b then a # CHR ''-'' # b # replace_camel cs
      else a # replace_camel (b # cs))"
| "replace_camel cs = cs"

text \<open>
  \<^verbatim>\<open>camelCaseToDashDelimited\<close>. The argument is whatever the caller passes; calling
  \<^verbatim>\<open>.replace\<close> on anything but a string throws.
\<close>

fun camelCaseToDashDelimited :: "jsval \<Rightarrow> js_error + string" where
  "camelCaseToDashDelimited (JStr directiveName) = Inr (toLowerCase (replace_camel directiveName))"
| "camelCaseToDashDelimited _ = Inl TypeError"

subsection \<open>Templates and the host templating facility\<close>

text \<open>
  \<^verbatim>\<open>$compile\<close>, the DOM and the interpolation of bindings belong to the host framework.
  They are modelled as far as the directive uses them. The directive always compiles a
  \<^verbatim>\<open>span\<close> whose inner HTML it has just set, so a compiled template (a link
  function) is given by that inner HTML. Linking a template to a scope clones the
  \<^verbatim>\<open>span\<close> and hands the clone, which stays bound to the scope, to the attach
  function.
\<close>

datatype tmpl = Compiled string

datatype node = Clone tmpl

text \<open>
  What a clone shows is the text of its markup outside the tags, with the bindings in it
  interpolated on the scope at the time one looks at it. \<open>strip_tags flag html\<close> is
  that text (\<open>flag\<close>: inside a tag).
\<close>

fun strip_tags :: "bool \<Rightarrow> string \<Rightarrow> string" where
  "strip_tags in_tag [] = []"
| "strip_tags in_tag (c # cs) =
     (if in_tag then (if c = CHR ''>'' then strip_tags False cs else strip_tags True cs)
      else if c = CHR ''<'' then strip_tags True cs
      else c # strip_tags False cs)"

text \<open>\<open>starts_with p s\<close>: \<open>p\<close> is a prefix of \<open>s\<close>; \<open>contains p s\<close>: \<open>p\<close> occurs in \<open>s\<close>.\<close>

fun starts_with :: "string \<Rightarrow> string \<Rightarrow> bool" where
  "starts_with [] s = True"
| "starts_with (p # ps) [] = False"
| "starts_with (p # ps) (c # cs) = (p = c \<and> starts_with ps cs)"

fun contains :: "string \<Rightarrow> string \<Rightarrow> bool" where
  "contains p [] = (p = [])"
| "contains p (c # cs) = (starts_with p (c # cs) \<or> contains p cs)"

text \<open>
  Modelled from the spec: the interpolation symbols of the UI are configured outside this
  file. The specification has the type in the fallback fragment interpolated live from
  the \<^verbatim>\<open>type\<close> field of the current value, so \<^verbatim>\<open>{$\<close> and \<^verbatim>\<open>$}\<close> are taken
  to be the symbols. The only binding the directive writes is \<^verbatim>\<open>{$ value.type $}\<close>.
\<close>

definition binding :: string where
  "binding = ''{$ value.type $}''"

text \<open>
  Modelled from the spec: the interpolation itself, which the host framework does.
  \<open>interpolate v text\<close> puts \<open>v\<close> in the place of each binding in \<open>text\<close>.
\<close>

fun interpolate :: "string \<Rightarrow> string \<Rightarrow> string" where
  "interpolate v [] = []"
| "interpolate v (c # cs) =
     (if starts_with binding (c # cs) then v @ interpolate v (drop 15 cs)
      else c # interpolate v cs)"

text \<open>The text an interpolated value contributes: nothing for \<^verbatim>\<open>undefined\<close> and \<^verbatim>\<open>null\<close>.\<close>

fun interpolation_text :: "jsval \<Rightarrow> string" where
  "interpolation_text JUndefined = []"
| "interpolation_text JNull = []"
| "interpolation_text (JBool b) = (if b then ''true'' else ''false'')"
| "interpolation_text (JStr s) = s"

fun node_text :: "jsval \<Rightarrow> node \<Rightarrow> string" where
  "node_text v (Clone (Compiled html)) = interpolate (interpolation_text v) (strip_tags False html)"

subsection \<open>The state of the page\<close>

text \<open>
  Bound values are objects that the page shares with the directive, and the module
  variable \<^verbatim>\<open>templatesCache\<close> holds a reference to an object that
  \<^verbatim>\<open>clearCaches\<close> replaces; callbacks keep the references they captured. Both kinds
  of object therefore live in a store. Of a value object only the \<^verbatim>\<open>type\<close>
  property matters. Of a cache object the own properties are kept, a map from property
  keys to templates.

  There may be many instances of the directive on a page; each has its controller with
  its own scope and element, all share the cache.
\<close>

type_synonym addr = nat

type_synonym ctrl = nat

text \<open>
  A cache object is created by \<^verbatim>\<open>{}\<close>, so reading \<^verbatim>\<open>templatesCache[key]\<close> finds,
  besides the templates stored in it, the properties it inherits from
  \<^verbatim>\<open>Object.prototype\<close>. The directive calls whatever it finds as
  \<^verbatim>\<open>tmpl(this.scope_, fn)\<close>, in strict mode, so with \<^verbatim>\<open>this\<close> undefined. Of the
  inherited properties \<^verbatim>\<open>constructor\<close> (which returns the scope) and
  \<^verbatim>\<open>toString\<close> (which returns \<^verbatim>\<open>[object Undefined]\<close>) return from such a call;
  the other functions convert \<^verbatim>\<open>this\<close> to an object and throw a
  \<^verbatim>\<open>TypeError\<close>, and \<^verbatim>\<open>__proto__\<close> reads as \<^verbatim>\<open>Object.prototype\<close> itself,
  which is no function. None of them calls the attach function it is given.
  \<open>object_prototype\<close> lists the names, each with whether the call throws.
\<close>

definition object_prototype :: "(string \<times> bool) list" where
  "object_prototype =
     [(''constructor'', False), (''toString'', False),
      (''toLocaleString'', True), (''valueOf'', True), (''hasOwnProperty'', True),
      (''isPrototypeOf'', True), (''propertyIsEnumerable'', True),
      (''__defineGetter__'', True), (''__defineSetter__'', True),
      (''__lookupGetter__'', True), (''__lookupSetter__'', True),
      (''__proto__'', True)]"

text \<open>
  What \<^verbatim>\<open>templatesCache[key]\<close> yields: \<^verbatim>\<open>undefined\<close>, a template stored under
  the key, or an inherited property (with whether calling it throws). Own properties
  come first.
\<close>

datatype property = Absent | Template tmpl | Inherited bool

definition get_property :: "(string \<rightharpoonup> tmpl) \<Rightarrow> string \<Rightarrow> property" where
  "get_property own key =
     (case own key of
        Some template \<Rightarrow> Template template
      | None \<Rightarrow>
          (case map_of object_prototype key of
             Some throws \<Rightarrow> Inherited throws
           | None \<Rightarrow> Absent))"

datatype ref = RUndefined | RNull | RObj addr

text \<open>What the registry resolves a type to: a directive, of which \<^verbatim>\<open>directive_name\<close> is read.\<close>

record directive =
  directive_name :: jsval

text \<open>
  The variables the callback passed to \<^verbatim>\<open>then\<close> in \<^verbatim>\<open>onValueTypeChange_\<close> has
  captured: the controller, \<^verbatim>\<open>value\<close> and \<^verbatim>\<open>templatesCache\<close>.
\<close>

record closure =
  k_this :: ctrl
  k_value :: addr
  k_templatesCache :: addr

record state =
  templatesCache :: addr
  caches :: "addr \<Rightarrow> (string \<rightharpoonup> tmpl)"
  objects :: "addr \<Rightarrow> jsval"
  scope_value :: "ctrl \<Rightarrow> ref"
  element :: "ctrl \<Rightarrow> node list"
  promises :: "closure option list"
  calls :: "jsval list"
  last_digest :: "ctrl \<Rightarrow> jsval"

text \<open>
  \<open>calls\<close> lists the arguments of the calls of \<^verbatim>\<open>findDirectiveForType\<close> so far.
  \<open>promises\<close> has one entry for each promise that
  \<^verbatim>\<open>compileSingleTypedValueTemplate_\<close> has returned, in the order of their creation:
  the callback waiting for the promise, or \<open>None\<close> when no callback waits for it
  (any more). \<open>pending s p\<close> is the callback that waits for promise \<open>p\<close>.
  \<open>last_digest\<close> is, for each scope, the value that \<^verbatim>\<open>value.type\<close> had at the
  end of the last digest: the value its watchers have seen last.
\<close>

definition pending :: "state \<Rightarrow> nat \<Rightarrow> closure option" where
  "pending s p = (if p < length (promises s) then promises s ! p else None)"

fun state_of :: "(js_error \<times> state) + state \<Rightarrow> state" where
  "state_of (Inl (e, s)) = s"
| "state_of (Inr s) = s"

text \<open>The watched expression \<^verbatim>\<open>value.type\<close>, evaluated on the scope of a controller.\<close>

definition watch_value :: "ctrl \<Rightarrow> state \<Rightarrow> jsval" where
  "watch_value this s = (case scope_value s this of RObj a \<Rightarrow> objects s a | _ \<Rightarrow> JUndefined)"

text \<open>
  The text the element of a directive shows. The bindings of a clone are watchers of
  the scope: they write the text in a digest and it stays until the next one, so the
  text is interpolated with the type that the last digest has seen.
\<close>

definition textContent :: "ctrl \<Rightarrow> state \<Rightarrow> string" where
  "textContent this s = concat (map (node_text (last_digest s this)) (element s this))"

subsection \<open>The operations of the directive\<close>

text \<open>\<^verbatim>\<open>clearCaches\<close>: the module variable gets a new, empty object.\<close>

definition clearCaches :: "state \<Rightarrow> state" where
  "clearCaches s =
     s\<lparr>templatesCache := Suc (templatesCache s),
       caches := (caches s)(Suc (templatesCache s) := Map.empty)\<rparr>"

text \<open>
  \<^verbatim>\<open>updateElement\<close>, the local function of \<^verbatim>\<open>onValueTypeChange_\<close>. Whatever is
  defined it calls: a template links itself to the scope and the clone is appended; an
  inherited property returns or throws and appends nothing. With \<^verbatim>\<open>undefined\<close> it
  evaluates \<^verbatim>\<open>this.value['type']\<close>, where \<^verbatim>\<open>this\<close> is the controller, which has no
  property \<^verbatim>\<open>value\<close>: the read throws before any text is set.
\<close>

fun updateElement :: "ctrl \<Rightarrow> property \<Rightarrow> state \<Rightarrow> (js_error \<times> state) + state" where
  "updateElement this (Template tmpl) s =
     Inr (s\<lparr>element := (element s)(this := element s this @ [Clone tmpl])\<rparr>)"
| "updateElement this (Inherited throws) s = (if throws then Inl (TypeError, s) else Inr s)"
| "updateElement this Absent s = Inl (TypeError, s)"

text \<open>The two handlers of \<^verbatim>\<open>compileSingleTypedValueTemplate_\<close>.\<close>

definition successHandler :: "directive \<Rightarrow> js_error + tmpl" where
  "successHandler directive =
     (case camelCaseToDashDelimited (directive_name directive) of
        Inl e \<Rightarrow> Inl e
      | Inr tag \<Rightarrow> Inr (Compiled (''<'' @ tag @ '' metadata=\"metadata\" value=\"value\" />'')))"

definition failureHandler :: tmpl where
  "failureHandler =
     Compiled (''<p class=\"form-control-static\">No directive '' @
               ''for type: {$ value.type $}.</p>'')"

text \<open>
  \<^verbatim>\<open>compileSingleTypedValueTemplate_\<close> calls \<^verbatim>\<open>findDirectiveForType\<close> with the
  type of the value and returns the promise derived with the two handlers; the result
  is the promise and the state with the call recorded and the promise added.
\<close>

definition compileSingleTypedValueTemplate :: "addr \<Rightarrow> state \<Rightarrow> nat \<times> state" where
  "compileSingleTypedValueTemplate value s =
     (length (promises s),
      s\<lparr>calls := calls s @ [objects s value], promises := promises s @ [None]\<rparr>)"

text \<open>
  \<^verbatim>\<open>onValueTypeChange_\<close>. Reading \<^verbatim>\<open>value['type']\<close> throws when the scope has no
  value object. When the lookup yields \<^verbatim>\<open>undefined\<close> the callback is registered
  with the promise by \<^verbatim>\<open>then\<close>; anything else goes to \<^verbatim>\<open>updateElement\<close>.
  The result is \<open>Inl\<close> with the error and the state at the throw, or \<open>Inr\<close> with
  the state at the return.
\<close>

definition onValueTypeChange :: "ctrl \<Rightarrow> jsval \<Rightarrow> state \<Rightarrow> (js_error \<times> state) + state" where
  "onValueTypeChange this newValue s =
     (let s1 = s\<lparr>element := (element s)(this := [])\<rparr> in
      if newValue = JUndefined then Inr s1
      else
        (case scope_value s1 this of
           RObj value \<Rightarrow>
             (case get_property (caches s1 (templatesCache s1))
                     (to_property_key (objects s1 value)) of
                Absent \<Rightarrow>
                  (let (p, s2) = compileSingleTypedValueTemplate value s1 in
                   Inr (s2\<lparr>promises := (promises s2)[p := Some
                          \<lparr>k_this = this, k_value = value,
                           k_templatesCache = templatesCache s1\<rparr>]\<rparr>))
              | template \<Rightarrow> updateElement this template s1)
         | _ \<Rightarrow> Inl (TypeError, s1)))"

text \<open>
  The callback of \<^verbatim>\<open>onValueTypeChange_\<close>, run with the template the promise was
  resolved with: it stores the template in the cache object it captured, under the type
  the captured value has now, and updates the element. (Under the key \<^verbatim>\<open>__proto__\<close>
  the assignment makes the template the prototype of the cache object; a later read
  of that key yields the template, as it does for the entry kept here. What the cache
  object would inherit from the template after that is left out.)
\<close>

definition callback :: "closure \<Rightarrow> tmpl \<Rightarrow> state \<Rightarrow> state" where
  "callback k template s =
     state_of (updateElement (k_this k) (Template template)
       (s\<lparr>caches := (caches s)(k_templatesCache k :=
            (caches s (k_templatesCache k))(to_property_key (objects s (k_value k)) \<mapsto> template))\<rparr>))"

text \<open>
  The registry settles a pending promise: with a directive (\<open>Some\<close>) or by rejecting
  it (\<open>None\<close>). The handler for the outcome runs; what it returns resolves the derived
  promise and the callback runs. Should the success handler throw, the derived promise is
  rejected, for which nothing is registered.
\<close>

definition settle :: "nat \<Rightarrow> directive option \<Rightarrow> state \<Rightarrow> state" where
  "settle p outcome s =
     (case pending s p of
        None \<Rightarrow> s
      | Some k \<Rightarrow>
          (let s1 = s\<lparr>promises := (promises s)[p := None]\<rparr> in
           case (case outcome of Some d \<Rightarrow> successHandler d | None \<Rightarrow> Inr failureHandler) of
             Inl e \<Rightarrow> s1
           | Inr template \<Rightarrow> callback k template s1))"

subsection \<open>What happens on a page\<close>

text \<open>
  A digest calls the watcher of a controller, or runs the callbacks of a promise that
  the registry has settled; a test clears the caches; the page gives a scope another
  value or changes the type of a value object in place. An exception in a watcher is
  caught by the digest. At the end of a digest the bindings of every scope have been
  evaluated. A digest in which a promise is settled and a watcher is due as well is the
  two events in this order.
\<close>

definition digest :: "state \<Rightarrow> state" where
  "digest s = s\<lparr>last_digest := (\<lambda>this. watch_value this s)\<rparr>"

datatype event =
    TypeChange ctrl jsval
  | Settle nat "directive option"
  | ClearCaches
  | SetValue ctrl ref
  | SetType addr jsval

fun step :: "event \<Rightarrow> state \<Rightarrow> state" where
  "step (TypeChange this newValue) s = digest (state_of (onValueTypeChange this newValue s))"
| "step (Settle p outcome) s = digest (settle p outcome s)"
| "step ClearCaches s = clearCaches s"
| "step (SetValue this r) s = s\<lparr>scope_value := (scope_value s)(this := r)\<rparr>"
| "step (SetType a v) s = s\<lparr>objects := (objects s)(a := v)\<rparr>"

fun run :: "event list \<Rightarrow> state \<Rightarrow> state" where
  "run [] s = s"
| "run (e # es) s = run es (step e s)"

text \<open>The page at the start: nothing cached, nothing bound, nothing rendered.\<close>

definition init :: state where
  "init = \<lparr>templatesCache = 0, caches = (\<lambda>_. Map.empty), objects = (\<lambda>_. JUndefined),
           scope_value = (\<lambda>_. RUndefined), element = (\<lambda>_. []), promises = [],
           calls = [], last_digest = (\<lambda>_. JUndefined)\<rparr>"

text \<open>Whether an event settles promise \<open>p\<close>, and whether it settles any promise.\<close>

fun settles :: "nat \<Rightarrow> event \<Rightarrow> bool" where
  "settles p (Settle q outcome) = (p = q)"
| "settles p e = False"

fun is_settle :: "event \<Rightarrow> bool" where
  "is_settle (Settle q outcome) = True"
| "is_settle e = False"

subsection \<open>Some pages\<close>

text \<open>Two directives of the registry.\<close>

definition string_directive :: directive where
  "string_directive = \<lparr>directive_name = JStr ''stringFormValue''\<rparr>"

definition widget :: directive where
  "widget = \<lparr>directive_name = JStr ''myWidgetName''\<rparr>"

text \<open>
  A value of type \<^verbatim>\<open>Foo\<close> is bound to directive 0 and the watcher has run;
  then the registry rejects the promise, having no directive for \<^verbatim>\<open>Foo\<close>.
\<close>

definition foo_requested :: state where
  "foo_requested =
     run [SetType 0 (JStr ''Foo''), SetValue 0 (RObj 0), TypeChange 0 (JStr ''Foo'')] init"

definition unresolved_events :: "event list" where
  "unresolved_events =
     [SetType 0 (JStr ''Foo''), SetValue 0 (RObj 0), TypeChange 0 (JStr ''Foo''), Settle 0 None]"

text \<open>
  A value of type \<^verbatim>\<open>string\<close> is bound to directive 0; then the watcher runs and
  the registry resolves the promise with the directive \<^verbatim>\<open>stringFormValue\<close>.
\<close>

definition string_bound :: state where
  "string_bound = run [SetType 0 (JStr ''string''), SetValue 0 (RObj 0)] init"


text \<open>
  A value of type \<^verbatim>\<open>A\<close> is bound to directive 0 and the watcher has run; while the
  promise is pending, the type of the value becomes \<^verbatim>\<open>B\<close> and the watcher runs again.
\<close>

definition a_requested :: state where
  "a_requested =
     run [SetType 0 (JStr ''A''), SetValue 0 (RObj 0), TypeChange 0 (JStr ''A'')] init"

definition stale_events :: "event list" where
  "stale_events = [SetType 0 (JStr ''B''), TypeChange 0 (JStr ''B'')]"

text \<open>
  A value of type \<^verbatim>\<open>Foo\<close> is bound to directive 0 and the watcher has run; while the
  promise is pending, the type of the value becomes \<^verbatim>\<open>Bar\<close> and the watcher runs again.
\<close>

definition foo_then_bar :: state where
  "foo_then_bar =
     run [SetType 0 (JStr ''Foo''), SetValue 0 (RObj 0), TypeChange 0 (JStr ''Foo''),
          SetType 0 (JStr ''Bar''), TypeChange 0 (JStr ''Bar'')] init"

text \<open>
  The run of \<^verbatim>\<open>A\<close> and \<^verbatim>\<open>B\<close> above goes on: the registry resolves the promise for
  \<^verbatim>\<open>A\<close>, and the type of the value becomes \<^verbatim>\<open>A\<close> again.
\<close>

definition a_resolved_late :: state where
  "a_resolved_late =
     run (stale_events @ [Settle 0 (Some widget), SetType 0 (JStr ''A'')]) a_requested"

text \<open>The caches are cleared while the promise for \<^verbatim>\<open>A\<close> is pending; then it is resolved.\<close>

definition a_cleared_early :: state where
  "a_cleared_early = run [ClearCaches, Settle 0 (Some widget)] a_requested"

text \<open>A value of type \<^verbatim>\<open>constructor\<close>, and one of type \<^verbatim>\<open>hasOwnProperty\<close>, is bound to directive 0.\<close>

definition constructor_bound :: state where
  "constructor_bound = run [SetType 0 (JStr ''constructor''), SetValue 0 (RObj 0)] init"



text \<open>A value whose type is \<^verbatim>\<open>null\<close> is bound to directive 0.\<close>

definition null_bound :: state where
  "null_bound = run [SetType 0 JNull, SetValue 0 (RObj 0)] init"

subsection \<open>The specification's wording, for comparison\<close>

text \<open>A dash goes between every lower-case letter or digit and an upper-case letter that follows it.\<close>

fun dash_between :: "string \<Rightarrow> string" where
  "dash_between (a # b # cs) =
     (if is_lower_or_digit a \<and> is_upper b then a # CHR ''-'' # dash_between (b # cs)
      else a # dash_between (b # cs))"
| "dash_between cs = cs"

text \<open>The naive rule: a dash goes before every upper-case letter.\<close>

fun dash_before_upper :: "string \<Rightarrow> string" where
  "dash_before_upper [] = []"
| "dash_before_upper (c # cs) =
     (if is_upper c then CHR ''-'' # c # dash_before_upper cs else c # dash_before_upper cs)"

text \<open>
  The host element the specification describes: an element with a tag and attributes
  that bind expressions of the scope, written as the markup \<^verbatim>\<open><tag name="expr" ... />\<close>.
\<close>

definition element_html :: "string \<Rightarrow> (string \<times> string) list \<Rightarrow> string" where
  "element_html tag attrs =
     ''<'' @ tag @ concat (map (\<lambda>(name, expr). '' '' @ name @ ''=\"'' @ expr @ ''\"'') attrs) @ '' />''"

section \<open>Properties\<close>

subsection \<open>The identifier transform\<close>

lemma dash_between_upper_head:
  "is_upper b \<Longrightarrow> dash_between (b # cs) = b # dash_between cs"
  by (cases cs) (auto simp: is_upper_def is_lower_or_digit_def)

lemma replace_camel_dash_between: "replace_camel s = dash_between s"
  by (induction s rule: replace_camel.induct) (simp_all add: dash_between_upper_head)

lemmas string_eval =
  toLowerCase_def lower_char_def has_lower_case_def is_upper_def is_lower_or_digit_def
  char_of_def bit_Suc_0_iff

lemma camel_simpleValue:
  "camelCaseToDashDelimited (JStr ''simpleValue'') = Inr ''simple-value''"
  by (simp add: string_eval)

lemma camel_fooBarBaz:
  "camelCaseToDashDelimited (JStr ''fooBarBaz'') = Inr ''foo-bar-baz''"
  by (simp add: string_eval)

lemma camel_HTTPValue:
  "camelCaseToDashDelimited (JStr ''HTTPValue'') = Inr ''httpvalue''"
  by (simp add: string_eval)

lemma naive_HTTPValue:
  "toLowerCase (dash_before_upper ''HTTPValue'') = ''-h-t-t-p-value''"
  by (simp add: string_eval)

text \<open>
  C4. For every string the conversion yields the string with a dash between each
  lower-case letter or digit and the upper-case letter right behind it, in lower case;
  \<^verbatim>\<open>simpleValue\<close> becomes \<^verbatim>\<open>simple-value\<close> and \<^verbatim>\<open>fooBarBaz\<close> becomes
  \<^verbatim>\<open>foo-bar-baz\<close>; on \<^verbatim>\<open>HTTPValue\<close> it differs from the rule that puts a dash
  before every upper-case letter.
\<close>

theorem camelCaseToDashDelimited_rule:
  "camelCaseToDashDelimited (JStr s) = Inr (toLowerCase (dash_between s))
   \<and> camelCaseToDashDelimited (JStr ''simpleValue'') = Inr ''simple-value''
   \<and> camelCaseToDashDelimited (JStr ''fooBarBaz'') = Inr ''foo-bar-baz''
   \<and> camelCaseToDashDelimited (JStr ''HTTPValue'')
        \<noteq> Inr (toLowerCase (dash_before_upper ''HTTPValue''))"
proof (intro conjI)
  show "camelCaseToDashDelimited (JStr s) = Inr (toLowerCase (dash_between s))"
    by (simp only: camelCaseToDashDelimited.simps replace_camel_dash_between)
  show "camelCaseToDashDelimited (JStr ''simpleValue'') = Inr ''simple-value''"
    by (rule camel_simpleValue)
  show "camelCaseToDashDelimited (JStr ''fooBarBaz'') = Inr ''foo-bar-baz''"
    by (rule camel_fooBarBaz)
  show "camelCaseToDashDelimited (JStr ''HTTPValue'')
          \<noteq> Inr (toLowerCase (dash_before_upper ''HTTPValue''))"
    unfolding camel_HTTPValue naive_HTTPValue by simp
qed

subsection \<open>Reading the cache\<close>

lemma get_property_Template: "(get_property own key = Template t) = (own key = Some t)"
  by (simp add: get_property_def split: option.splits)

lemma get_property_Absent:
  "(get_property own key = Absent) = (own key = None \<and> map_of object_prototype key = None)"
  by (simp add: get_property_def split: option.splits)


lemma key_not_inherited:
  "\<forall>str. v \<noteq> JStr str \<Longrightarrow> map_of object_prototype (to_property_key v) = None"
  by (cases v) (simp_all add: object_prototype_def)

subsection \<open>The watcher and the callback, case by case\<close>

lemma onValueTypeChange_undefined:
  "onValueTypeChange this JUndefined s = Inr (s\<lparr>element := (element s)(this := [])\<rparr>)"
  by (simp add: onValueTypeChange_def)

lemma onValueTypeChange_absent:
  assumes "newValue \<noteq> JUndefined" and "scope_value s this = RObj a"
    and "get_property (caches s (templatesCache s)) (to_property_key (objects s a)) = Absent"
  shows "onValueTypeChange this newValue s =
    Inr (s\<lparr>element := (element s)(this := []),
           calls := calls s @ [objects s a],
           promises := promises s @
             [Some \<lparr>k_this = this, k_value = a, k_templatesCache = templatesCache s\<rparr>]\<rparr>)"
  using assms by (simp add: onValueTypeChange_def compileSingleTypedValueTemplate_def)

lemma onValueTypeChange_template:
  assumes "newValue \<noteq> JUndefined" and "scope_value s this = RObj a"
    and "get_property (caches s (templatesCache s)) (to_property_key (objects s a)) = Template t"
  shows "onValueTypeChange this newValue s =
    Inr (s\<lparr>element := (element s)(this := [Clone t])\<rparr>)"
  using assms by (simp add: onValueTypeChange_def)

lemma onValueTypeChange_inherited:
  assumes "newValue \<noteq> JUndefined" and "scope_value s this = RObj a"
    and "get_property (caches s (templatesCache s)) (to_property_key (objects s a)) = Inherited b"
  shows "onValueTypeChange this newValue s =
    (if b then Inl (TypeError, s\<lparr>element := (element s)(this := [])\<rparr>)
     else Inr (s\<lparr>element := (element s)(this := [])\<rparr>))"
  using assms by (simp add: onValueTypeChange_def)

lemma onValueTypeChange_no_object:
  assumes "newValue \<noteq> JUndefined" and "\<forall>a. scope_value s this \<noteq> RObj a"
  shows "onValueTypeChange this newValue s =
    Inl (TypeError, s\<lparr>element := (element s)(this := [])\<rparr>)"
  using assms by (cases "scope_value s this") (simp_all add: onValueTypeChange_def)

lemma settle_pending:
  assumes "pending s p = Some k"
    and "(case outcome of Some d \<Rightarrow> successHandler d | None \<Rightarrow> Inr failureHandler) = Inr t"
  shows "settle p outcome s =
    s\<lparr>promises := (promises s)[p := None],
      caches := (caches s)(k_templatesCache k :=
            (caches s (k_templatesCache k))(to_property_key (objects s (k_value k)) \<mapsto> t)),
      element := (element s)(k_this k := element s (k_this k) @ [Clone t])\<rparr>"
  using assms by (simp add: settle_def callback_def)

subsection \<open>What the operations leave alone\<close>

lemma onValueTypeChange_frame:
  "caches (state_of (onValueTypeChange this newValue s)) = caches s"
  "templatesCache (state_of (onValueTypeChange this newValue s)) = templatesCache s"
  "objects (state_of (onValueTypeChange this newValue s)) = objects s"
  "scope_value (state_of (onValueTypeChange this newValue s)) = scope_value s"
  "last_digest (state_of (onValueTypeChange this newValue s)) = last_digest s"
  by (simp_all add: onValueTypeChange_def compileSingleTypedValueTemplate_def Let_def
      split: ref.splits property.splits)

lemma onValueTypeChange_pending:
  "pending s p = Some k \<Longrightarrow> pending (state_of (onValueTypeChange this newValue s)) p = Some k"
  by (simp add: onValueTypeChange_def compileSingleTypedValueTemplate_def Let_def pending_def
      nth_append split: ref.splits property.splits if_splits)

lemma settle_frame:
  "templatesCache (settle p outcome s) = templatesCache s"
  "objects (settle p outcome s) = objects s"
  "scope_value (settle p outcome s) = scope_value s"
  "calls (settle p outcome s) = calls s"
  "last_digest (settle p outcome s) = last_digest s"
  by (simp_all add: settle_def callback_def Let_def split: option.splits sum.splits)

lemma settle_other_pending:
  "q \<noteq> p \<Longrightarrow> pending (settle q outcome s) p = pending s p"
  by (simp add: settle_def callback_def Let_def pending_def split: option.splits sum.splits)

lemma settle_keeps_entries:
  "caches s c key \<noteq> None \<Longrightarrow> caches (settle p outcome s) c key \<noteq> None"
  by (auto simp: settle_def callback_def Let_def split: option.splits sum.splits)

lemma clearCaches_pending: "pending (clearCaches s) p = pending s p"
  by (simp add: clearCaches_def pending_def)

lemma digest_frame:
  "templatesCache (digest s) = templatesCache s"
  "caches (digest s) = caches s"
  "objects (digest s) = objects s"
  "scope_value (digest s) = scope_value s"
  "element (digest s) = element s"
  "promises (digest s) = promises s"
  "calls (digest s) = calls s"
  "pending (digest s) p = pending s p"
  "watch_value this (digest s) = watch_value this s"
  "last_digest (digest s) this = watch_value this s"
  by (simp_all add: digest_def pending_def watch_value_def split: ref.splits)

lemma watch_value_frame:
  "watch_value this (settle p outcome s) = watch_value this s"
  "watch_value this (state_of (onValueTypeChange that newValue s)) = watch_value this s"
  "watch_value this (clearCaches s) = watch_value this s"
  by (simp_all add: watch_value_def settle_frame onValueTypeChange_frame clearCaches_def
      split: ref.splits)

subsection \<open>What a run of events leaves alone\<close>

lemma run_append: "run (es @ fs) s = run fs (run es s)"
  by (induction es arbitrary: s) simp_all

lemma step_keeps_entries:
  "e \<noteq> ClearCaches \<Longrightarrow> caches s (templatesCache s) key \<noteq> None \<Longrightarrow>
   caches (step e s) (templatesCache (step e s)) key \<noteq> None"
  by (cases e)
     (simp_all add: onValueTypeChange_frame settle_frame settle_keeps_entries digest_frame)

lemma run_keeps_entries:
  "ClearCaches \<notin> set es \<Longrightarrow> caches s (templatesCache s) key \<noteq> None \<Longrightarrow>
   caches (run es s) (templatesCache (run es s)) key \<noteq> None"
proof (induction es arbitrary: s)
  case Nil
  then show ?case by simp
next
  case (Cons e es)
  from Cons.prems have "e \<noteq> ClearCaches" and "ClearCaches \<notin> set es" by auto
  with Cons.prems(2) Cons.IH [of "step e s"] show ?case
    by (simp add: step_keeps_entries)
qed

lemma step_keeps_cache:
  "e \<noteq> ClearCaches \<Longrightarrow> \<not> is_settle e \<Longrightarrow>
   caches (step e s) = caches s \<and> templatesCache (step e s) = templatesCache s"
  by (cases e) (simp_all add: onValueTypeChange_frame digest_frame)

lemma run_keeps_cache:
  "\<forall>e\<in>set es. e \<noteq> ClearCaches \<and> \<not> is_settle e \<Longrightarrow>
   caches (run es s) = caches s \<and> templatesCache (run es s) = templatesCache s"
  by (induction es arbitrary: s) (simp_all add: step_keeps_cache)

lemma pending_other_fields:
  "pending (s\<lparr>scope_value := f\<rparr>) p = pending s p"
  "pending (s\<lparr>objects := g\<rparr>) p = pending s p"
  by (simp_all add: pending_def)

lemma step_keeps_pending:
  "pending s p = Some k \<Longrightarrow> \<not> settles p e \<Longrightarrow> pending (step e s) p = Some k"
  by (cases e)
     (simp_all add: onValueTypeChange_pending settle_other_pending clearCaches_pending
        pending_other_fields digest_frame)

lemma run_keeps_pending:
  "pending s p = Some k \<Longrightarrow> \<forall>e\<in>set es. \<not> settles p e \<Longrightarrow> pending (run es s) p = Some k"
  by (induction es arbitrary: s) (simp_all add: step_keeps_pending)

lemma cached_no_call:
  assumes "newValue \<noteq> JUndefined" and "scope_value s this = RObj a"
    and "caches s (templatesCache s) (to_property_key (objects s a)) = Some t"
  shows "calls (state_of (onValueTypeChange this newValue s)) = calls s
    \<and> promises (state_of (onValueTypeChange this newValue s)) = promises s
    \<and> element (state_of (onValueTypeChange this newValue s)) this = [Clone t]"
  using assms onValueTypeChange_template [of newValue s this a t]
  by (simp add: get_property_Template)

subsection \<open>Text and markup\<close>

lemma starts_with_append: "starts_with p (p @ ys)"
  by (induction p) simp_all

lemma contains_self_append: "contains p (p @ ys)"
proof (cases "p @ ys")
  case Nil
  then show ?thesis by simp
next
  case (Cons c cs)
  have "starts_with p (p @ ys)" by (rule starts_with_append)
  with Cons show ?thesis by simp
qed

lemma contains_append_left: "contains p ys \<Longrightarrow> contains p (xs @ ys)"
  by (induction xs) simp_all

lemma contains_concat_map: "n \<in> set ns \<Longrightarrow> contains (f n) (concat (map f ns))"
proof (induction ns)
  case Nil
  then show ?case by simp
next
  case (Cons m ns)
  show ?case
  proof (cases "n = m")
    case True
    then show ?thesis by (simp add: contains_self_append)
  next
    case False
    with Cons have "contains (f n) (concat (map f ns))" by simp
    then show ?thesis by (simp add: contains_append_left)
  qed
qed

lemma node_text_failure:
  "node_text v (Clone failureHandler) = ''No directive for type: '' @ interpolation_text v @ ''.''"
  by (simp add: failureHandler_def binding_def)

subsection \<open>The pages\<close>

lemmas run_eval =
  init_def onValueTypeChange_def compileSingleTypedValueTemplate_def settle_def callback_def
  clearCaches_def pending_def digest_def watch_value_def get_property_def object_prototype_def
  Let_def

lemma widget_template:
  "successHandler widget = Inr (Compiled ''<my-widget-name metadata=\"metadata\" value=\"value\" />'')"
  by (simp add: widget_def successHandler_def string_eval)

lemma string_directive_template:
  "successHandler string_directive
     = Inr (Compiled ''<string-form-value metadata=\"metadata\" value=\"value\" />'')"
  by (simp add: string_directive_def successHandler_def string_eval)

lemma foo_requested_eval:
  "pending foo_requested 0 = Some \<lparr>k_this = 0, k_value = 0, k_templatesCache = 0\<rparr>"
  "objects foo_requested 0 = JStr ''Foo''"
  "templatesCache foo_requested = 0"
  "scope_value foo_requested 0 = RObj 0"
  "calls foo_requested = [JStr ''Foo'']"
  "element foo_requested 0 = []"
  by (simp_all add: foo_requested_def run_eval)

lemma foo_then_bar_eval:
  "pending foo_then_bar 0 = Some \<lparr>k_this = 0, k_value = 0, k_templatesCache = 0\<rparr>"
  "watch_value 0 foo_then_bar = JStr ''Bar''"
  "last_digest foo_then_bar 0 = JStr ''Bar''"
  "calls foo_then_bar = [JStr ''Foo'', JStr ''Bar'']"
  "element foo_then_bar 0 = []"
  by (simp_all add: foo_then_bar_def run_eval)

lemma string_bound_eval:
  "scope_value string_bound 0 = RObj 0"
  "objects string_bound 0 = JStr ''string''"
  "caches string_bound (templatesCache string_bound) key = None"
  "promises string_bound = []"
  "calls string_bound = []"
  by (simp_all add: string_bound_def run_eval)


subsection \<open>Resolution fails\<close>

text \<open>
  C1. When the registry rejects the promise, the callback stores the template of the
  failure handler in the cache object it captured, under the type its value has at that
  moment. If that type is \<open>T\<close> and that cache is still the current one, the cache holds
  the fallback template under \<open>T\<close> afterwards, and as long as the caches are not cleared
  a later call of the watcher for a value of type \<open>T\<close> makes no call of the registry
  and waits for no promise: it appends a clone of the template the cache holds for \<open>T\<close>
  then, which is the fallback template if no promise has been settled since.
\<close>

theorem fallback_template_is_cached:
  assumes "pending s p = Some k"
  shows "caches (settle p None s) (k_templatesCache k) (to_property_key (objects s (k_value k)))
      = Some failureHandler
    \<and> (objects s (k_value k) = JStr T \<longrightarrow> k_templatesCache k = templatesCache s \<longrightarrow>
         get_property (caches (settle p None s) (templatesCache (settle p None s))) T
           = Template failureHandler
         \<and> (\<forall>es this a newValue.
              ClearCaches \<notin> set es \<longrightarrow> newValue \<noteq> JUndefined \<longrightarrow>
              scope_value (run (Settle p None # es) s) this = RObj a \<longrightarrow>
              objects (run (Settle p None # es) s) a = JStr T \<longrightarrow>
              calls (state_of (onValueTypeChange this newValue (run (Settle p None # es) s)))
                = calls (run (Settle p None # es) s)
              \<and> promises (state_of (onValueTypeChange this newValue (run (Settle p None # es) s)))
                = promises (run (Settle p None # es) s)
              \<and> (\<exists>t. caches (run (Settle p None # es) s)
                         (templatesCache (run (Settle p None # es) s)) T = Some t
                    \<and> element (state_of (onValueTypeChange this newValue
                          (run (Settle p None # es) s))) this = [Clone t])
              \<and> ((\<forall>e\<in>set es. \<not> is_settle e) \<longrightarrow>
                    element (state_of (onValueTypeChange this newValue
                          (run (Settle p None # es) s))) this = [Clone failureHandler])))"
proof (intro conjI impI)
  have settled: "settle p None s =
    s\<lparr>promises := (promises s)[p := None],
      caches := (caches s)(k_templatesCache k :=
            (caches s (k_templatesCache k))(to_property_key (objects s (k_value k))
              \<mapsto> failureHandler)),
      element := (element s)(k_this k := element s (k_this k) @ [Clone failureHandler])\<rparr>"
    using assms by (simp add: settle_pending)
  show "caches (settle p None s) (k_templatesCache k) (to_property_key (objects s (k_value k)))
      = Some failureHandler"
    by (simp add: settled)
  assume ty: "objects s (k_value k) = JStr T" and cur: "k_templatesCache k = templatesCache s"
  define s' where "s' = step (Settle p None) s"
  have stored: "caches s' (templatesCache s') T = Some failureHandler"
    by (simp add: s'_def digest_frame settled ty cur)
  show "get_property (caches (settle p None s) (templatesCache (settle p None s))) T
      = Template failureHandler"
    using stored by (simp add: s'_def digest_frame get_property_Template)
  show "\<forall>es this a newValue.
      ClearCaches \<notin> set es \<longrightarrow> newValue \<noteq> JUndefined \<longrightarrow>
      scope_value (run (Settle p None # es) s) this = RObj a \<longrightarrow>
      objects (run (Settle p None # es) s) a = JStr T \<longrightarrow>
      calls (state_of (onValueTypeChange this newValue (run (Settle p None # es) s)))
        = calls (run (Settle p None # es) s)
      \<and> promises (state_of (onValueTypeChange this newValue (run (Settle p None # es) s)))
        = promises (run (Settle p None # es) s)
      \<and> (\<exists>t. caches (run (Settle p None # es) s)
                 (templatesCache (run (Settle p None # es) s)) T = Some t
            \<and> element (state_of (onValueTypeChange this newValue
                  (run (Settle p None # es) s))) this = [Clone t])
      \<and> ((\<forall>e\<in>set es. \<not> is_settle e) \<longrightarrow>
            element (state_of (onValueTypeChange this newValue
                  (run (Settle p None # es) s))) this = [Clone failureHandler])"
  proof (intro allI impI)
    fix es this a newValue
    assume es: "ClearCaches \<notin> set es" and nv: "newValue \<noteq> JUndefined"
      and val: "scope_value (run (Settle p None # es) s) this = RObj a"
      and ty': "objects (run (Settle p None # es) s) a = JStr T"
    define s'' where "s'' = run es s'"
    have unfold: "run (Settle p None # es) s = s''"
      by (simp add: s''_def s'_def)
    have "caches s'' (templatesCache s'') T \<noteq> None"
      unfolding s''_def using es stored by (simp add: run_keeps_entries)
    then obtain t where t: "caches s'' (templatesCache s'') T = Some t"
      by blast
    have hit: "calls (state_of (onValueTypeChange this newValue s'')) = calls s''
        \<and> promises (state_of (onValueTypeChange this newValue s'')) = promises s''
        \<and> element (state_of (onValueTypeChange this newValue s'')) this = [Clone t]"
      using cached_no_call [OF nv val [unfolded unfold], of t] t ty' [unfolded unfold] by simp
    have same: "t = failureHandler" if quiet: "\<forall>e\<in>set es. \<not> is_settle e"
    proof -
      have "caches s'' = caches s' \<and> templatesCache s'' = templatesCache s'"
        unfolding s''_def using es quiet by (intro run_keeps_cache) auto
      with t stored show ?thesis by simp
    qed
    show "calls (state_of (onValueTypeChange this newValue (run (Settle p None # es) s)))
        = calls (run (Settle p None # es) s)
      \<and> promises (state_of (onValueTypeChange this newValue (run (Settle p None # es) s)))
        = promises (run (Settle p None # es) s)
      \<and> (\<exists>t. caches (run (Settle p None # es) s)
                 (templatesCache (run (Settle p None # es) s)) T = Some t
            \<and> element (state_of (onValueTypeChange this newValue
                  (run (Settle p None # es) s))) this = [Clone t])
      \<and> ((\<forall>e\<in>set es. \<not> is_settle e) \<longrightarrow>
            element (state_of (onValueTypeChange this newValue
                  (run (Settle p None # es) s))) this = [Clone failureHandler])"
      unfolding unfold using hit t same by auto
  qed
qed

theorem fallback_template_is_cached_witness:
  "pending foo_requested 0 = Some \<lparr>k_this = 0, k_value = 0, k_templatesCache = 0\<rparr>
   \<and> objects foo_requested 0 = JStr ''Foo''
   \<and> templatesCache foo_requested = 0
   \<and> caches (settle 0 None foo_requested) 0 ''Foo'' = Some failureHandler
   \<and> get_property (caches (settle 0 None foo_requested)
         (templatesCache (settle 0 None foo_requested))) ''Foo'' = Template failureHandler
   \<and> scope_value (run [Settle 0 None, SetValue 1 (RObj 0)] foo_requested) 1 = RObj 0
   \<and> objects (run [Settle 0 None, SetValue 1 (RObj 0)] foo_requested) 0 = JStr ''Foo''
   \<and> calls (run [Settle 0 None, SetValue 1 (RObj 0)] foo_requested) = [JStr ''Foo'']
   \<and> calls (state_of (onValueTypeChange 1 (JStr ''Foo'')
         (run [Settle 0 None, SetValue 1 (RObj 0)] foo_requested))) = [JStr ''Foo'']
   \<and> promises (state_of (onValueTypeChange 1 (JStr ''Foo'')
         (run [Settle 0 None, SetValue 1 (RObj 0)] foo_requested)))
       = promises (run [Settle 0 None, SetValue 1 (RObj 0)] foo_requested)
   \<and> element (state_of (onValueTypeChange 1 (JStr ''Foo'')
         (run [Settle 0 None, SetValue 1 (RObj 0)] foo_requested))) 1 = [Clone failureHandler]"
proof -
  let ?k = "\<lparr>k_this = 0, k_value = 0, k_templatesCache = 0\<rparr>"
  define st where "st = run [Settle 0 None, SetValue 1 (RObj 0)] foo_requested"
  have h1: "pending foo_requested 0 = Some ?k"
    and h2: "objects foo_requested (k_value ?k) = JStr ''Foo''"
    and h3: "k_templatesCache ?k = templatesCache foo_requested"
    by (simp_all add: foo_requested_eval)
  note inst = fallback_template_is_cached [OF h1, of "''Foo''"]
  have c1: "caches (settle 0 None foo_requested) 0 ''Foo'' = Some failureHandler"
    using inst [THEN conjunct1] by (simp add: foo_requested_eval)
  note rest = inst [THEN conjunct2, rule_format, OF h2 h3]
  have c2: "get_property (caches (settle 0 None foo_requested)
         (templatesCache (settle 0 None foo_requested))) ''Foo'' = Template failureHandler"
    using rest [THEN conjunct1] .
  have e1: "ClearCaches \<notin> set [SetValue 1 (RObj 0)]" by simp
  have e2: "JStr ''Foo'' \<noteq> JUndefined" by simp
  have e3: "scope_value st 1 = RObj 0"
    by (simp add: st_def settle_frame digest_frame)
  have e4: "objects st 0 = JStr ''Foo''"
    by (simp add: st_def settle_frame digest_frame foo_requested_eval)
  have e5: "calls st = [JStr ''Foo'']"
    by (simp add: st_def settle_frame digest_frame foo_requested_eval)
  have quiet: "\<forall>e\<in>set [SetValue 1 (RObj 0)]. \<not> is_settle e" by simp
  note later = rest [THEN conjunct2, rule_format, OF e1 e2 e3 [unfolded st_def] e4 [unfolded st_def],
      folded st_def]
  have c3: "calls (state_of (onValueTypeChange 1 (JStr ''Foo'') st)) = [JStr ''Foo'']"
    using later e5 by simp
  have c4: "promises (state_of (onValueTypeChange 1 (JStr ''Foo'') st)) = promises st"
    using later by simp
  have c5: "element (state_of (onValueTypeChange 1 (JStr ''Foo'') st)) 1 = [Clone failureHandler]"
    using later quiet by simp
  show ?thesis
    using h1 h2 h3 c1 c2 e3 e4 e5 c3 c4 c5 unfolding st_def by simp
qed

text \<open>
  After the failed render of type \<^verbatim>\<open>Foo\<close> the cache does hold an entry for
  \<^verbatim>\<open>Foo\<close>, and the next render of the type calls the registry no more.
\<close>

theorem fallback_not_cached_counterexample:
  "caches (run unresolved_events init) (templatesCache (run unresolved_events init)) ''Foo'' \<noteq> None
   \<and> calls (run (unresolved_events @ [TypeChange 0 (JStr ''Foo'')]) init)
       = calls (run unresolved_events init)"
  by (simp add: unresolved_events_def run_eval)

text \<open>
  C2. When the registry rejects the promise, the callback appends a clone of the failure
  handler's template to the element. When the digest of the rejection ends, no change
  of the type having waited for it, the text of the element contains
  \<^verbatim>\<open>No directive for type: \<close>, the type and a full stop, and the type is the one that
  the value bound to the scope has then, not the one the registry was asked for.
\<close>

theorem unresolved_type_message:
  assumes "pending s p = Some k" and "last_digest s (k_this k) = watch_value (k_this k) s"
  shows "element (step (Settle p None) s) (k_this k)
      = element s (k_this k) @ [Clone failureHandler]
    \<and> node_text (watch_value (k_this k) s) (Clone failureHandler)
        = ''No directive for type: '' @ interpolation_text (watch_value (k_this k) s) @ ''.''
    \<and> contains (''No directive for type: '' @ interpolation_text (watch_value (k_this k) s) @ ''.'')
        (textContent (k_this k) (step (Settle p None) s))"
proof (intro conjI)
  show appended: "element (step (Settle p None) s) (k_this k)
      = element s (k_this k) @ [Clone failureHandler]"
    using assms(1) by (simp add: digest_frame settle_pending [where t = failureHandler])
  show "node_text (watch_value (k_this k) s) (Clone failureHandler)
      = ''No directive for type: '' @ interpolation_text (watch_value (k_this k) s) @ ''.''"
    by (rule node_text_failure)
  have seen: "last_digest (step (Settle p None) s) (k_this k) = watch_value (k_this k) s"
    by (simp add: digest_frame watch_value_frame)
  have "Clone failureHandler \<in> set (element (step (Settle p None) s) (k_this k))"
    unfolding appended by simp
  then have "contains (node_text (watch_value (k_this k) s) (Clone failureHandler))
      (concat (map (node_text (watch_value (k_this k) s))
        (element (step (Settle p None) s) (k_this k))))"
    by (rule contains_concat_map)
  then show "contains
      (''No directive for type: '' @ interpolation_text (watch_value (k_this k) s) @ ''.'')
      (textContent (k_this k) (step (Settle p None) s))"
    by (simp only: node_text_failure textContent_def seen)
qed

theorem unresolved_type_message_witness:
  "pending foo_then_bar 0 = Some \<lparr>k_this = 0, k_value = 0, k_templatesCache = 0\<rparr>
   \<and> calls foo_then_bar = [JStr ''Foo'', JStr ''Bar'']
   \<and> last_digest foo_then_bar 0 = JStr ''Bar''
   \<and> watch_value 0 foo_then_bar = JStr ''Bar''
   \<and> element (step (Settle 0 None) foo_then_bar) 0 = [Clone failureHandler]
   \<and> textContent 0 (step (Settle 0 None) foo_then_bar) = ''No directive for type: Bar.''
   \<and> contains ''No directive for type: Bar.'' (textContent 0 (step (Settle 0 None) foo_then_bar))"
proof -
  let ?k = "\<lparr>k_this = 0, k_value = 0, k_templatesCache = 0\<rparr>"
  define st where "st = step (Settle 0 None) foo_then_bar"
  have h1: "pending foo_then_bar 0 = Some ?k"
    by (simp add: foo_then_bar_eval)
  have h2: "last_digest foo_then_bar (k_this ?k) = watch_value (k_this ?k) foo_then_bar"
    by (simp add: foo_then_bar_eval)
  note inst = unresolved_type_message [OF h1 h2, folded st_def]
  have c1: "element st 0 = [Clone failureHandler]"
    using inst [THEN conjunct1] by (simp add: foo_then_bar_eval)
  have seen: "last_digest st 0 = JStr ''Bar''"
    by (simp add: st_def digest_frame watch_value_frame foo_then_bar_eval)
  have c2: "textContent 0 st = ''No directive for type: Bar.''"
    using inst [THEN conjunct2, THEN conjunct1]
    by (simp add: textContent_def c1 seen foo_then_bar_eval)
  have c3: "contains ''No directive for type: Bar.'' (textContent 0 st)"
    using inst [THEN conjunct2, THEN conjunct2] by (simp add: foo_then_bar_eval)
  show ?thesis
    using h1 foo_then_bar_eval(2,3,4) c1 c2 c3 unfolding st_def by simp
qed

text \<open>
  After the failed render of type \<^verbatim>\<open>Foo\<close> the element reads
  \<^verbatim>\<open>No directive for type: Foo.\<close>; the words \<^verbatim>\<open>Can't handle type: Foo\<close> are not in it.
\<close>

theorem cant_handle_type_counterexample:
  "textContent 0 (run unresolved_events init) = ''No directive for type: Foo.''
   \<and> \<not> contains ''Can't handle type: Foo'' (textContent 0 (run unresolved_events init))"
proof -
  have "textContent 0 (run unresolved_events init) = ''No directive for type: Foo.''"
    by (simp add: unresolved_events_def run_eval textContent_def failureHandler_def binding_def)
  then show ?thesis by simp
qed

subsection \<open>Resolution succeeds\<close>

text \<open>
  C3. When the watcher runs for a value of type \<open>T\<close>, and reading the cache under
  \<open>T\<close> yields \<^verbatim>\<open>undefined\<close> (the cache has no entry for \<open>T\<close> and \<open>T\<close> names no
  inherited property), it calls the registry exactly once, for \<open>T\<close>. Once the registry
  has resolved that promise with a directive, the value being of type \<open>T\<close> and the cache
  being the same object at that moment, every later run of the watcher for a value of
  type \<open>T\<close>, on any instance of the directive, calls the registry no more and appends a
  clone of the template cached for \<open>T\<close>, until the caches are cleared.
\<close>

theorem first_render_resolves_once:
  assumes nv: "newValue \<noteq> JUndefined" and val: "scope_value s this = RObj a"
    and ty: "objects s a = JStr T"
    and miss: "get_property (caches s (templatesCache s)) T = Absent"
  shows "\<exists>s1. onValueTypeChange this newValue s = Inr s1 \<and> calls s1 = calls s @ [JStr T]
    \<and> (\<forall>d t es1 es2 that b newValue'.
          successHandler d = Inr t \<longrightarrow>
          (\<forall>e\<in>set es1. \<not> settles (length (promises s)) e) \<longrightarrow>
          objects (run (TypeChange this newValue # es1) s) a = JStr T \<longrightarrow>
          templatesCache (run (TypeChange this newValue # es1) s) = templatesCache s \<longrightarrow>
          ClearCaches \<notin> set es2 \<longrightarrow>
          newValue' \<noteq> JUndefined \<longrightarrow>
          scope_value (run (TypeChange this newValue # es1
              @ Settle (length (promises s)) (Some d) # es2) s) that = RObj b \<longrightarrow>
          objects (run (TypeChange this newValue # es1
              @ Settle (length (promises s)) (Some d) # es2) s) b = JStr T \<longrightarrow>
          calls (state_of (onValueTypeChange that newValue'
                  (run (TypeChange this newValue # es1
                    @ Settle (length (promises s)) (Some d) # es2) s)))
            = calls (run (TypeChange this newValue # es1
                @ Settle (length (promises s)) (Some d) # es2) s)
          \<and> (\<exists>t'. caches (run (TypeChange this newValue # es1
                      @ Settle (length (promises s)) (Some d) # es2) s)
                    (templatesCache (run (TypeChange this newValue # es1
                      @ Settle (length (promises s)) (Some d) # es2) s)) T = Some t'
                \<and> element (state_of (onValueTypeChange that newValue'
                    (run (TypeChange this newValue # es1
                      @ Settle (length (promises s)) (Some d) # es2) s))) that = [Clone t']))"
proof -
  define k where "k = \<lparr>k_this = this, k_value = a, k_templatesCache = templatesCache s\<rparr>"
  define s1 where "s1 = s\<lparr>element := (element s)(this := []),
           calls := calls s @ [objects s a],
           promises := promises s @ [Some k]\<rparr>"
  define p where "p = length (promises s)"
  have first: "onValueTypeChange this newValue s = Inr s1"
    using onValueTypeChange_absent [OF nv val] miss ty by (simp add: s1_def k_def)
  have calls1: "calls s1 = calls s @ [JStr T]"
    by (simp add: s1_def ty)
  have pend1: "pending (digest s1) p = Some k"
    by (simp add: digest_frame) (simp add: s1_def pending_def p_def)
  have start: "run (TypeChange this newValue # es) s = run es (digest s1)" for es
    by (simp add: first)
  have later: "calls (state_of (onValueTypeChange that newValue'
                  (run (TypeChange this newValue # es1 @ Settle p (Some d) # es2) s)))
            = calls (run (TypeChange this newValue # es1 @ Settle p (Some d) # es2) s)
          \<and> (\<exists>t'. caches (run (TypeChange this newValue # es1 @ Settle p (Some d) # es2) s)
                    (templatesCache (run (TypeChange this newValue # es1
                      @ Settle p (Some d) # es2) s)) T = Some t'
                \<and> element (state_of (onValueTypeChange that newValue'
                    (run (TypeChange this newValue # es1 @ Settle p (Some d) # es2) s))) that
                  = [Clone t'])"
    if ok: "successHandler d = Inr t"
      and es1: "\<forall>e\<in>set es1. \<not> settles p e"
      and obj: "objects (run (TypeChange this newValue # es1) s) a = JStr T"
      and cache: "templatesCache (run (TypeChange this newValue # es1) s) = templatesCache s"
      and es2: "ClearCaches \<notin> set es2" and nv': "newValue' \<noteq> JUndefined"
      and val': "scope_value (run (TypeChange this newValue # es1
          @ Settle p (Some d) # es2) s) that = RObj b"
      and ty': "objects (run (TypeChange this newValue # es1
          @ Settle p (Some d) # es2) s) b = JStr T"
    for d t es1 es2 that b newValue'
  proof -
    define s2 where "s2 = run es1 (digest s1)"
    define s3 where "s3 = step (Settle p (Some d)) s2"
    have split: "run (TypeChange this newValue # es1 @ Settle p (Some d) # es2) s = run es2 s3"
      unfolding start by (simp add: run_append s2_def s3_def)
    have pend2: "pending s2 p = Some k"
      unfolding s2_def using pend1 es1 by (rule run_keeps_pending)
    have obj2: "objects s2 a = JStr T"
      using obj unfolding start s2_def .
    have cache2: "templatesCache s2 = templatesCache s"
      using cache unfolding start s2_def .
    have "caches s3 (templatesCache s3) T = Some t"
      unfolding s3_def using settle_pending [OF pend2, of "Some d" t] ok obj2 cache2
      by (simp add: k_def digest_frame)
    then have "caches (run es2 s3) (templatesCache (run es2 s3)) T \<noteq> None"
      using es2 by (simp add: run_keeps_entries)
    then obtain t' where "caches (run es2 s3) (templatesCache (run es2 s3)) T = Some t'"
      by blast
    then show ?thesis
      unfolding split
      using cached_no_call [OF nv' val' [unfolded split], of t'] ty' [unfolded split] by simp
  qed
  show ?thesis
    apply (rule exI [of _ s1])
    apply (rule conjI [OF first])
    apply (rule conjI [OF calls1])
    apply (intro allI impI)
    apply (rule later [unfolded p_def])
           apply assumption+
    done
qed

theorem first_render_resolves_once_witness:
  "JStr ''string'' \<noteq> JUndefined
   \<and> scope_value string_bound 0 = RObj 0
   \<and> objects string_bound 0 = JStr ''string''
   \<and> get_property (caches string_bound (templatesCache string_bound)) ''string'' = Absent
   \<and> calls (state_of (onValueTypeChange 0 (JStr ''string'') string_bound)) = [JStr ''string'']
   \<and> successHandler string_directive
        = Inr (Compiled ''<string-form-value metadata=\"metadata\" value=\"value\" />'')
   \<and> calls (run [TypeChange 0 (JStr ''string''), SetValue 1 (RObj 1), Settle 0 (Some string_directive),
               SetType 1 (JStr ''string'')] string_bound) = [JStr ''string'']
   \<and> calls (state_of (onValueTypeChange 1 (JStr ''string'')
         (run [TypeChange 0 (JStr ''string''), SetValue 1 (RObj 1), Settle 0 (Some string_directive),
               SetType 1 (JStr ''string'')] string_bound))) = [JStr ''string'']"
proof -
  define st where "st = run (TypeChange 0 (JStr ''string'') # [SetValue 1 (RObj 1)]
      @ Settle (length (promises string_bound)) (Some string_directive)
      # [SetType 1 (JStr ''string'')]) string_bound"
  have h1: "JStr ''string'' \<noteq> JUndefined" by simp
  have h2: "scope_value string_bound 0 = RObj 0"
    and h3: "objects string_bound 0 = JStr ''string''"
    by (simp_all add: string_bound_eval)
  have h4: "get_property (caches string_bound (templatesCache string_bound)) ''string'' = Absent"
    by (simp add: get_property_Absent string_bound_eval object_prototype_def)
  from first_render_resolves_once [OF h1 h2 h3 h4]
  obtain s1 where first: "onValueTypeChange 0 (JStr ''string'') string_bound = Inr s1"
    and once: "calls s1 = calls string_bound @ [JStr ''string'']"
    and later: "\<forall>d t es1 es2 that b newValue'.
          successHandler d = Inr t \<longrightarrow>
          (\<forall>e\<in>set es1. \<not> settles (length (promises string_bound)) e) \<longrightarrow>
          objects (run (TypeChange 0 (JStr ''string'') # es1) string_bound) 0 = JStr ''string'' \<longrightarrow>
          templatesCache (run (TypeChange 0 (JStr ''string'') # es1) string_bound)
            = templatesCache string_bound \<longrightarrow>
          ClearCaches \<notin> set es2 \<longrightarrow>
          newValue' \<noteq> JUndefined \<longrightarrow>
          scope_value (run (TypeChange 0 (JStr ''string'') # es1
              @ Settle (length (promises string_bound)) (Some d) # es2) string_bound) that = RObj b \<longrightarrow>
          objects (run (TypeChange 0 (JStr ''string'') # es1
              @ Settle (length (promises string_bound)) (Some d) # es2) string_bound) b
            = JStr ''string'' \<longrightarrow>
          calls (state_of (onValueTypeChange that newValue'
                  (run (TypeChange 0 (JStr ''string'') # es1
                    @ Settle (length (promises string_bound)) (Some d) # es2) string_bound)))
            = calls (run (TypeChange 0 (JStr ''string'') # es1
                @ Settle (length (promises string_bound)) (Some d) # es2) string_bound)
          \<and> (\<exists>t'. caches (run (TypeChange 0 (JStr ''string'') # es1
                      @ Settle (length (promises string_bound)) (Some d) # es2) string_bound)
                    (templatesCache (run (TypeChange 0 (JStr ''string'') # es1
                      @ Settle (length (promises string_bound)) (Some d) # es2) string_bound))
                    ''string'' = Some t'
                \<and> element (state_of (onValueTypeChange that newValue'
                    (run (TypeChange 0 (JStr ''string'') # es1
                      @ Settle (length (promises string_bound)) (Some d) # es2) string_bound))) that
                  = [Clone t'])"
    by (elim exE conjE)
  have c1: "calls (state_of (onValueTypeChange 0 (JStr ''string'') string_bound)) = [JStr ''string'']"
    using first once by (simp add: string_bound_eval)
  have s1: "s1 = state_of (onValueTypeChange 0 (JStr ''string'') string_bound)"
    using first by simp
  have calls3: "calls st = [JStr ''string'']"
    using once by (simp add: st_def first settle_frame digest_frame string_bound_eval)
  let ?mid = "run (TypeChange 0 (JStr ''string'') # [SetValue 1 (RObj 1)]) string_bound"
  have p1: "\<forall>e\<in>set [SetValue 1 (RObj 1)]. \<not> settles (length (promises string_bound)) e"
    by simp
  have p2: "objects ?mid 0 = JStr ''string''"
    by (simp add: digest_frame onValueTypeChange_frame string_bound_eval)
  have p3: "templatesCache ?mid = templatesCache string_bound"
    by (simp add: digest_frame onValueTypeChange_frame)
  have p4: "ClearCaches \<notin> set [SetType 1 (JStr ''string'')]" by simp
  have p5: "scope_value st 1 = RObj 1"
    by (simp add: st_def digest_frame settle_frame)
  have p6: "objects st 1 = JStr ''string''"
    by (simp add: st_def)
  have "calls (state_of (onValueTypeChange 1 (JStr ''string'') st)) = calls st"
    using later [rule_format, OF string_directive_template p1 [rule_format] p2 p3 p4 h1
        p5 [unfolded st_def] p6 [unfolded st_def], THEN conjunct1, folded st_def] .
  then have c2: "calls (state_of (onValueTypeChange 1 (JStr ''string'') st)) = [JStr ''string'']"
    using calls3 by simp
  show ?thesis
    using h1 h2 h3 h4 c1 string_directive_template calls3 c2
    by (simp add: st_def string_bound_eval)
qed

text \<open>
  Three runs. The type of the value changes from \<^verbatim>\<open>A\<close> to \<^verbatim>\<open>B\<close> while the promise
  for \<^verbatim>\<open>A\<close> is pending: the template is stored under \<^verbatim>\<open>B\<close>, and the next render of
  \<^verbatim>\<open>A\<close> calls the registry again. The caches are cleared while the promise is
  pending: the next render calls the registry again. The type is \<^verbatim>\<open>constructor\<close>,
  for which the cache has no entry: the first render calls nothing.
\<close>

theorem first_render_counterexample:
  "calls a_resolved_late = [JStr ''A'', JStr ''B'']
   \<and> caches a_resolved_late (templatesCache a_resolved_late) ''A'' = None
   \<and> caches a_resolved_late (templatesCache a_resolved_late) ''B''
       = Some (Compiled ''<my-widget-name metadata=\"metadata\" value=\"value\" />'')
   \<and> watch_value 0 a_resolved_late = JStr ''A''
   \<and> calls (step (TypeChange 0 (JStr ''A'')) a_resolved_late) = [JStr ''A'', JStr ''B'', JStr ''A'']
   \<and> calls a_cleared_early = [JStr ''A'']
   \<and> watch_value 0 a_cleared_early = JStr ''A''
   \<and> calls (step (TypeChange 0 (JStr ''A'')) a_cleared_early) = [JStr ''A'', JStr ''A'']
   \<and> caches constructor_bound (templatesCache constructor_bound) ''constructor'' = None
   \<and> watch_value 0 constructor_bound = JStr ''constructor''
   \<and> calls (step (TypeChange 0 (JStr ''constructor'')) constructor_bound) = []"
  by (simp add: a_resolved_late_def a_cleared_early_def constructor_bound_def stale_events_def
      a_requested_def run_eval widget_template)

text \<open>
  C5. For a directive named \<open>D\<close> the success handler compiles the markup of an element
  whose tag is the dash-delimited form of \<open>D\<close> and that binds the two attributes
  \<^verbatim>\<open>metadata\<close> and \<^verbatim>\<open>value\<close> to the expressions \<^verbatim>\<open>metadata\<close> and
  \<^verbatim>\<open>value\<close> of the scope; a clone of it is what the callback appends. The name
  \<^verbatim>\<open>myWidgetName\<close> gives the tag \<^verbatim>\<open>my-widget-name\<close>.
\<close>

theorem host_element_of_directive:
  assumes "directive_name d = JStr D"
  shows "\<exists>tag. camelCaseToDashDelimited (JStr D) = Inr tag
     \<and> successHandler d
         = Inr (Compiled (element_html tag [(''metadata'', ''metadata''), (''value'', ''value'')]))
     \<and> (\<forall>s p k. pending s p = Some k \<longrightarrow>
           element (settle p (Some d) s) (k_this k) = element s (k_this k) @
             [Clone (Compiled (element_html tag [(''metadata'', ''metadata''), (''value'', ''value'')]))])"
proof (intro exI conjI allI impI)
  show "camelCaseToDashDelimited (JStr D) = Inr (toLowerCase (replace_camel D))"
    by simp
  show ok: "successHandler d = Inr (Compiled (element_html (toLowerCase (replace_camel D))
      [(''metadata'', ''metadata''), (''value'', ''value'')]))"
    using assms by (simp add: successHandler_def element_html_def)
  fix s :: state and p k
  assume "pending s p = Some k"
  then show "element (settle p (Some d) s) (k_this k) = element s (k_this k) @
      [Clone (Compiled (element_html (toLowerCase (replace_camel D))
        [(''metadata'', ''metadata''), (''value'', ''value'')]))]"
    using ok by (simp add: settle_pending [where outcome = "Some d"])
qed

theorem host_element_of_directive_witness:
  "directive_name widget = JStr ''myWidgetName''
   \<and> camelCaseToDashDelimited (JStr ''myWidgetName'') = Inr ''my-widget-name''
   \<and> successHandler widget
       = Inr (Compiled ''<my-widget-name metadata=\"metadata\" value=\"value\" />'')
   \<and> pending foo_requested 0 = Some \<lparr>k_this = 0, k_value = 0, k_templatesCache = 0\<rparr>
   \<and> element (settle 0 (Some widget) foo_requested) 0
       = [Clone (Compiled ''<my-widget-name metadata=\"metadata\" value=\"value\" />'')]"
proof -
  have h: "directive_name widget = JStr ''myWidgetName''"
    by (simp add: widget_def)
  have tag: "camelCaseToDashDelimited (JStr ''myWidgetName'') = Inr ''my-widget-name''"
    by (simp add: string_eval)
  have p: "pending foo_requested 0 = Some \<lparr>k_this = 0, k_value = 0, k_templatesCache = 0\<rparr>"
    by (simp add: foo_requested_eval)
  obtain tg where t1: "camelCaseToDashDelimited (JStr ''myWidgetName'') = Inr tg"
    and t2: "successHandler widget
         = Inr (Compiled (element_html tg [(''metadata'', ''metadata''), (''value'', ''value'')]))"
    and t3: "\<And>s p k. pending s p = Some k \<Longrightarrow>
           element (settle p (Some widget) s) (k_this k) = element s (k_this k) @
             [Clone (Compiled (element_html tg [(''metadata'', ''metadata''), (''value'', ''value'')]))]"
    using host_element_of_directive [OF h] by blast
  have tg: "tg = ''my-widget-name''"
    using t1 tag by simp
  have html: "element_html ''my-widget-name'' [(''metadata'', ''metadata''), (''value'', ''value'')]
      = ''<my-widget-name metadata=\"metadata\" value=\"value\" />''"
    by (simp add: element_html_def)
  have c2: "successHandler widget
       = Inr (Compiled ''<my-widget-name metadata=\"metadata\" value=\"value\" />'')"
    using t2 by (simp only: tg html)
  have c3: "element (settle 0 (Some widget) foo_requested) 0
       = [Clone (Compiled ''<my-widget-name metadata=\"metadata\" value=\"value\" />'')]"
    using t3 [OF p] by (simp add: tg html foo_requested_eval)
  show ?thesis
    using h tag c2 p c3 by simp
qed

subsection \<open>The watcher\<close>

text \<open>
  C6. The watcher empties the element before it looks at the new type: its outcome is
  the same as on a page whose element is already empty, and afterwards the element holds
  nothing or just a clone of the template cached for the type of the value. When the new
  type is \<^verbatim>\<open>undefined\<close> it returns at once: the element is empty, and the registry
  calls, the waiting callbacks and the caches are as before.
\<close>

theorem type_change_clears_first:
  "onValueTypeChange this newValue s
     = onValueTypeChange this newValue (s\<lparr>element := (element s)(this := [])\<rparr>)
   \<and> (element (state_of (onValueTypeChange this newValue s)) this = []
        \<or> (\<exists>t. caches s (templatesCache s) (to_property_key (watch_value this s)) = Some t
              \<and> element (state_of (onValueTypeChange this newValue s)) this = [Clone t]))
   \<and> onValueTypeChange this JUndefined s = Inr (s\<lparr>element := (element s)(this := [])\<rparr>)
   \<and> element (state_of (onValueTypeChange this JUndefined s)) this = []
   \<and> calls (state_of (onValueTypeChange this JUndefined s)) = calls s
   \<and> promises (state_of (onValueTypeChange this JUndefined s)) = promises s
   \<and> caches (state_of (onValueTypeChange this JUndefined s)) = caches s"
proof (intro conjI)
  show "onValueTypeChange this newValue s
     = onValueTypeChange this newValue (s\<lparr>element := (element s)(this := [])\<rparr>)"
    by (simp add: onValueTypeChange_def)
  show "element (state_of (onValueTypeChange this newValue s)) this = []
        \<or> (\<exists>t. caches s (templatesCache s) (to_property_key (watch_value this s)) = Some t
              \<and> element (state_of (onValueTypeChange this newValue s)) this = [Clone t])"
    by (simp add: onValueTypeChange_def compileSingleTypedValueTemplate_def watch_value_def Let_def get_property_Template
        split: ref.splits property.splits)
qed (simp_all add: onValueTypeChange_undefined)

subsection \<open>Resolutions in flight\<close>

text \<open>
  C8. A callback that waits for a promise keeps waiting whatever else happens on the
  page: runs of the watcher for new types, changes of the bound value, clearing of the
  caches, other promises being settled. When the registry settles its promise, the
  callback appends the clone of its template to what the element of its directive holds
  at that moment.
\<close>

theorem pending_resolution_never_cancelled:
  assumes "pending s p = Some k" and "\<forall>e\<in>set es. \<not> settles p e"
    and "(case outcome of Some d \<Rightarrow> successHandler d | None \<Rightarrow> Inr failureHandler) = Inr t"
  shows "pending (run es s) p = Some k
    \<and> element (settle p outcome (run es s)) (k_this k) = element (run es s) (k_this k) @ [Clone t]"
proof -
  have "pending (run es s) p = Some k"
    using assms(1,2) by (rule run_keeps_pending)
  then show ?thesis
    using assms(3) by (simp add: settle_pending)
qed

theorem pending_resolution_never_cancelled_witness:
  "pending a_requested 0 = Some \<lparr>k_this = 0, k_value = 0, k_templatesCache = 0\<rparr>
   \<and> \<not> settles 0 (SetType 0 (JStr ''B'')) \<and> \<not> settles 0 (TypeChange 0 (JStr ''B''))
   \<and> successHandler widget = Inr (Compiled ''<my-widget-name metadata=\"metadata\" value=\"value\" />'')
   \<and> calls (run stale_events a_requested) = [JStr ''A'', JStr ''B'']
   \<and> watch_value 0 (run stale_events a_requested) = JStr ''B''
   \<and> element (run stale_events a_requested) 0 = []
   \<and> pending (run stale_events a_requested) 0
       = Some \<lparr>k_this = 0, k_value = 0, k_templatesCache = 0\<rparr>
   \<and> element (settle 0 (Some widget) (run stale_events a_requested)) 0
       = [Clone (Compiled ''<my-widget-name metadata=\"metadata\" value=\"value\" />'')]"
proof -
  let ?k = "\<lparr>k_this = 0, k_value = 0, k_templatesCache = 0\<rparr>"
  have h1: "pending a_requested 0 = Some ?k"
    by (simp add: a_requested_def run_eval)
  have h2: "\<forall>e\<in>set stale_events. \<not> settles 0 e"
    by (simp add: stale_events_def)
  have h3: "(case Some widget of Some d \<Rightarrow> successHandler d | None \<Rightarrow> Inr failureHandler)
      = Inr (Compiled ''<my-widget-name metadata=\"metadata\" value=\"value\" />'')"
    by (simp add: widget_template)
  note inst = pending_resolution_never_cancelled [OF h1 h2 h3]
  have w: "watch_value 0 (run stale_events a_requested) = JStr ''B''"
    and e: "element (run stale_events a_requested) 0 = []"
    and c0: "calls (run stale_events a_requested) = [JStr ''A'', JStr ''B'']"
    by (simp_all add: stale_events_def a_requested_def run_eval)
  have c: "element (settle 0 (Some widget) (run stale_events a_requested)) 0
       = [Clone (Compiled ''<my-widget-name metadata=\"metadata\" value=\"value\" />'')]"
    using inst [THEN conjunct2] by (simp add: e)
  show ?thesis
    using h1 widget_template c0 w e inst [THEN conjunct1] c by simp
qed

text \<open>
  C10. With \<^verbatim>\<open>undefined\<close> the watcher returns right after emptying the element. For
  any other new type, \<^verbatim>\<open>null\<close> included, and a value object bound to the scope, it
  reads the cache under the type of the value: when that yields \<^verbatim>\<open>undefined\<close> it
  calls the registry with the type of the value and registers its callback, a cached
  template it clones, an inherited property it calls. For a type that is not a string
  the cache yields \<^verbatim>\<open>undefined\<close> or a cached template. Where the type of the bound
  value names no inherited property, the watcher leaves just the emptied element behind
  if and only if the new type is \<^verbatim>\<open>undefined\<close>.
\<close>

theorem only_undefined_halts:
  "onValueTypeChange this JUndefined s = Inr (s\<lparr>element := (element s)(this := [])\<rparr>)
   \<and> (newValue \<noteq> JUndefined \<longrightarrow> scope_value s this = RObj a \<longrightarrow>
        (case get_property (caches s (templatesCache s)) (to_property_key (objects s a)) of
           Absent \<Rightarrow>
             onValueTypeChange this newValue s
               = Inr (s\<lparr>element := (element s)(this := []),
                        calls := calls s @ [objects s a],
                        promises := promises s @
                          [Some \<lparr>k_this = this, k_value = a,
                                 k_templatesCache = templatesCache s\<rparr>]\<rparr>)
         | Template t \<Rightarrow>
             onValueTypeChange this newValue s
               = Inr (s\<lparr>element := (element s)(this := [Clone t])\<rparr>)
         | Inherited throws \<Rightarrow>
             onValueTypeChange this newValue s
               = (if throws then Inl (TypeError, s\<lparr>element := (element s)(this := [])\<rparr>)
                  else Inr (s\<lparr>element := (element s)(this := [])\<rparr>))))
   \<and> ((\<forall>str. objects s a \<noteq> JStr str) \<longrightarrow>
        get_property (caches s (templatesCache s)) (to_property_key (objects s a)) = Absent
        \<or> (\<exists>t. get_property (caches s (templatesCache s)) (to_property_key (objects s a))
              = Template t))
   \<and> (map_of object_prototype (to_property_key (watch_value this s)) = None \<longrightarrow>
        (onValueTypeChange this newValue s = Inr (s\<lparr>element := (element s)(this := [])\<rparr>))
          = (newValue = JUndefined))"
proof (intro conjI impI)
  show "onValueTypeChange this JUndefined s = Inr (s\<lparr>element := (element s)(this := [])\<rparr>)"
    by (rule onValueTypeChange_undefined)
next
  assume nv: "newValue \<noteq> JUndefined" and val: "scope_value s this = RObj a"
  show "case get_property (caches s (templatesCache s)) (to_property_key (objects s a)) of
           Absent \<Rightarrow>
             onValueTypeChange this newValue s
               = Inr (s\<lparr>element := (element s)(this := []),
                        calls := calls s @ [objects s a],
                        promises := promises s @
                          [Some \<lparr>k_this = this, k_value = a,
                                 k_templatesCache = templatesCache s\<rparr>]\<rparr>)
         | Template t \<Rightarrow>
             onValueTypeChange this newValue s
               = Inr (s\<lparr>element := (element s)(this := [Clone t])\<rparr>)
         | Inherited throws \<Rightarrow>
             onValueTypeChange this newValue s
               = (if throws then Inl (TypeError, s\<lparr>element := (element s)(this := [])\<rparr>)
                  else Inr (s\<lparr>element := (element s)(this := [])\<rparr>))"
    using onValueTypeChange_absent [OF nv val] onValueTypeChange_template [OF nv val]
      onValueTypeChange_inherited [OF nv val]
    by (simp split: property.splits)
next
  assume "\<forall>str. objects s a \<noteq> JStr str"
  then have "map_of object_prototype (to_property_key (objects s a)) = None"
    by (rule key_not_inherited)
  then show "get_property (caches s (templatesCache s)) (to_property_key (objects s a)) = Absent
        \<or> (\<exists>t. get_property (caches s (templatesCache s)) (to_property_key (objects s a))
              = Template t)"
    by (simp add: get_property_def split: option.splits)
next
  assume plain: "map_of object_prototype (to_property_key (watch_value this s)) = None"
  show "(onValueTypeChange this newValue s = Inr (s\<lparr>element := (element s)(this := [])\<rparr>))
     = (newValue = JUndefined)"
  proof
    assume halt: "onValueTypeChange this newValue s = Inr (s\<lparr>element := (element s)(this := [])\<rparr>)"
    show "newValue = JUndefined"
    proof (rule ccontr)
      assume nv: "newValue \<noteq> JUndefined"
      show False
      proof (cases "scope_value s this")
        case (RObj a)
        with plain have plain': "map_of object_prototype (to_property_key (objects s a)) = None"
          by (simp add: watch_value_def)
        show False
        proof (cases "caches s (templatesCache s) (to_property_key (objects s a))")
          case None
          with plain' have
            "get_property (caches s (templatesCache s)) (to_property_key (objects s a)) = Absent"
            by (simp add: get_property_Absent)
          from onValueTypeChange_absent [OF nv RObj this] halt
          have "s\<lparr>element := (element s)(this := [])\<rparr> =
              s\<lparr>element := (element s)(this := []),
                calls := calls s @ [objects s a],
                promises := promises s @
                  [Some \<lparr>k_this = this, k_value = a, k_templatesCache = templatesCache s\<rparr>]\<rparr>"
            by simp
          then have "calls (s\<lparr>element := (element s)(this := [])\<rparr>) =
              calls (s\<lparr>element := (element s)(this := []),
                calls := calls s @ [objects s a],
                promises := promises s @
                  [Some \<lparr>k_this = this, k_value = a, k_templatesCache = templatesCache s\<rparr>]\<rparr>)"
            by (rule arg_cong)
          then show False by simp
        next
          case (Some t)
          then have
            "get_property (caches s (templatesCache s)) (to_property_key (objects s a)) = Template t"
            by (simp add: get_property_Template)
          from onValueTypeChange_template [OF nv RObj this] halt
          have "s\<lparr>element := (element s)(this := [])\<rparr> =
              s\<lparr>element := (element s)(this := [Clone t])\<rparr>"
            by simp
          then have "element (s\<lparr>element := (element s)(this := [])\<rparr>) this =
              element (s\<lparr>element := (element s)(this := [Clone t])\<rparr>) this"
            by (rule arg_cong)
          then show False by simp
        qed
      qed (use nv halt in \<open>simp_all add: onValueTypeChange_no_object\<close>)
    qed
  next
    assume "newValue = JUndefined"
    then show "onValueTypeChange this newValue s = Inr (s\<lparr>element := (element s)(this := [])\<rparr>)"
      by (simp add: onValueTypeChange_undefined)
  qed
qed

theorem only_undefined_halts_witness:
  "JNull \<noteq> JUndefined
   \<and> scope_value null_bound 0 = RObj 0
   \<and> objects null_bound 0 = JNull
   \<and> watch_value 0 null_bound = JNull
   \<and> map_of object_prototype (to_property_key JNull) = None
   \<and> get_property (caches null_bound (templatesCache null_bound)) ''null'' = Absent
   \<and> onValueTypeChange 0 JNull null_bound
       \<noteq> Inr (null_bound\<lparr>element := (element null_bound)(0 := [])\<rparr>)
   \<and> onValueTypeChange 0 JNull null_bound
       = Inr (null_bound\<lparr>element := (element null_bound)(0 := []),
                calls := calls null_bound @ [JNull],
                promises := promises null_bound @
                  [Some \<lparr>k_this = 0, k_value = 0, k_templatesCache = templatesCache null_bound\<rparr>]\<rparr>)
   \<and> calls (state_of (onValueTypeChange 0 JNull null_bound)) = [JNull]"
proof -
  note inst = only_undefined_halts [of 0 null_bound JNull 0]
  have h1: "JNull \<noteq> JUndefined" by simp
  have h2: "scope_value null_bound 0 = RObj 0" and h3: "objects null_bound 0 = JNull"
    and h4: "watch_value 0 null_bound = JNull"
    and h5: "calls null_bound = []"
    by (simp_all add: null_bound_def run_eval)
  have h6: "map_of object_prototype (to_property_key JNull) = None"
    by (simp add: object_prototype_def)
  have h7: "\<forall>str. objects null_bound 0 \<noteq> JStr str"
    by (simp add: h3)
  have own: "caches null_bound (templatesCache null_bound) ''null'' = None"
    by (simp add: null_bound_def run_eval)
  have c0: "get_property (caches null_bound (templatesCache null_bound)) ''null'' = Absent"
    using inst [THEN conjunct2, THEN conjunct2, THEN conjunct1] h7 own
    by (simp add: h3 get_property_Template)
  have c1: "onValueTypeChange 0 JNull null_bound
       \<noteq> Inr (null_bound\<lparr>element := (element null_bound)(0 := [])\<rparr>)"
    using inst [THEN conjunct2, THEN conjunct2, THEN conjunct2] h4 h6 by simp
  have c2: "onValueTypeChange 0 JNull null_bound
       = Inr (null_bound\<lparr>element := (element null_bound)(0 := []),
                calls := calls null_bound @ [JNull],
                promises := promises null_bound @
                  [Some \<lparr>k_this = 0, k_value = 0, k_templatesCache = templatesCache null_bound\<rparr>]\<rparr>)"
    using inst [THEN conjunct2, THEN conjunct1] h1 h2 h3 c0 by simp
  have c3: "calls (state_of (onValueTypeChange 0 JNull null_bound)) = [JNull]"
    by (simp add: c2 h5)
  show ?thesis
    using h1 h2 h3 h4 h6 c0 c1 c2 c3 by simp
qed

subsection \<open>Clearing the caches\<close>




subsection \<open>Failures\<close>




end
